theory Spec2Isabelle
  imports
    Complex_Main
    "HOL-Library.Multiset"
    "HOL-Library.Char_ord"
    "HOL-Library.List_Lexorder"
begin

section \<open>Trip statistics of the history page\<close>

text \<open>
  The history page fetches the tracking records of one vehicle (newest first) and hands
  them to \<open>calculateStats\<close>, which stores the record count, the average and maximum
  speed and the total haversine distance in the \<open>stats\<close> state of the page.

  Number model. A JavaScript \<open>number\<close> is an IEEE 754 binary64 value. ECMAScript fixes
  \<open>+\<close>, \<open>-\<close>, \<open>*\<close> and \<open>/\<close> bit for bit (round to nearest, ties to even) and
  leaves the values of \<open>Math.sin\<close>, \<open>Math.cos\<close>, \<open>Math.sqrt\<close> and \<open>Math.atan2\<close> to
  the implementation, as approximations. The function is therefore embedded three times.

  \<^item> \<open>calculateStats_on A\<close> is the function over the arithmetic \<open>A\<close> of an engine: a
    record of the operations the body uses, on a type of numbers that is left open (it
    holds \<open>NaN\<close> and \<open>\<plusminus>Infinity\<close> where the engine has them). What is proved of it
    holds of the function on every engine.
  \<^item> \<open>avgSpeed_binary64\<close> is the average speed with the rounding of \<open>+\<close> and \<open>/\<close>
    written out.
  \<^item> \<open>calculateStats\<close> is the function in exact real arithmetic: \<open>+\<close>, \<open>-\<close>, \<open>*\<close>,
    \<open>/\<close> are the field operations, \<open>Math.PI\<close> is \<^term>\<open>pi\<close>, \<open>Math.sin\<close>,
    \<open>Math.cos\<close> and \<open>Math.sqrt\<close> are \<^term>\<open>sin :: real \<Rightarrow> real\<close>,
    \<^term>\<open>cos :: real \<Rightarrow> real\<close> and \<^term>\<open>sqrt\<close>; \<open>NaN\<close>, \<open>\<plusminus>Infinity\<close> and
    the rounding are left out. Its theorems are statements of exact arithmetic.
\<close>

subsection \<open>Data\<close>

text \<open>\<open>interface TrackingRecord\<close>; the field \<open>id\<close> is named \<open>rec_id\<close> here.\<close>

record TrackingRecord =
  rec_id :: string
  latitude :: real
  longitude :: real
  speed :: real
  timestamp :: string
  heading :: "real option"

text \<open>The value held by the \<open>stats\<close> state of the page.\<close>

record Stats =
  totalRecords :: nat
  avgSpeed :: real
  maxSpeed :: real
  totalDistance :: real

text \<open>
  Reading a property of \<open>undefined\<close> throws a \<open>TypeError\<close> in JavaScript; that is the
  only way the body of \<open>calculateStats\<close> could raise.
\<close>

datatype error = TypeError

subsection \<open>Library functions\<close>

text \<open>
  \<open>records[i].latitude\<close>: an index outside the array yields \<open>undefined\<close>, and the
  property read on it throws.
\<close>

definition nth_js :: "'a list \<Rightarrow> int \<Rightarrow> error + 'a" where
  "nth_js xs i = (if 0 \<le> i \<and> i < int (length xs) then Inr (xs ! nat i) else Inl TypeError)"

text \<open>
  \<open>Math.atan2(y, x)\<close> on real arguments: the angle of the point \<open>(x, y)\<close> in
  \<open>(-\<pi>, \<pi>]\<close>, and \<open>0\<close> at the origin.
\<close>

definition Math_atan2 :: "real \<Rightarrow> real \<Rightarrow> real" where
  "Math_atan2 y x =
     (if 0 < x then arctan (y / x)
      else if x < 0 then (if 0 \<le> y then arctan (y / x) + pi else arctan (y / x) - pi)
      else if 0 < y then pi / 2
      else if y < 0 then - (pi / 2)
      else 0)"

text \<open>
  \<open>Math.max(x, ...xs)\<close> with at least one argument. (With no argument at all the result
  is \<open>-Infinity\<close>; \<open>calculateStats\<close> returns before that call when the array is empty,
  so \<open>Math.max(...speeds)\<close> is \<open>Math_max (hd speeds) (tl speeds)\<close> there.)
\<close>

definition Math_max :: "real \<Rightarrow> real list \<Rightarrow> real" where
  "Math_max x xs = foldl max x xs"

text \<open>\<open>setStats(v)\<close> replaces the \<open>stats\<close> state of the page by \<open>v\<close>.\<close>

definition setStats :: "Stats \<Rightarrow> Stats \<Rightarrow> Stats" where
  "setStats v old = v"

subsection \<open>\<open>calculateStats\<close>\<close>

text \<open>
  The body of the \<open>for\<close> loop for one index: the haversine distance between
  \<open>records[i]\<close> (first argument) and \<open>records[i - 1]\<close> (second argument).
\<close>

definition segmentDistance :: "TrackingRecord \<Rightarrow> TrackingRecord \<Rightarrow> real" where
  "segmentDistance r_i r_prev =
     (let lat1 = latitude r_i;
          lon1 = longitude r_i;
          lat2 = latitude r_prev;
          lon2 = longitude r_prev;
          R = 6371;
          dLat = ((lat2 - lat1) * pi) / 180;
          dLon = ((lon2 - lon1) * pi) / 180;
          a = sin (dLat / 2) * sin (dLat / 2) +
              cos ((lat1 * pi) / 180) * cos ((lat2 * pi) / 180) * sin (dLon / 2) * sin (dLon / 2);
          c = 2 * Math_atan2 (sqrt a) (sqrt (1 - a))
      in R * c)"

text \<open>\<open>for (let i = 1; i < records.length; i++) totalDistance += R * c\<close>.\<close>

function distanceLoop :: "TrackingRecord list \<Rightarrow> int \<Rightarrow> real \<Rightarrow> error + real" where
  "distanceLoop records i totalDist =
     (if i < int (length records) then
        (case nth_js records i of
           Inl e \<Rightarrow> Inl e
         | Inr r_i \<Rightarrow>
             (case nth_js records (i - 1) of
                Inl e \<Rightarrow> Inl e
              | Inr r_prev \<Rightarrow> distanceLoop records (i + 1) (totalDist + segmentDistance r_i r_prev)))
      else Inr totalDist)"
  by pat_completeness auto
termination
  by (relation "measure (\<lambda>(records, i, totalDist). nat (int (length records) - i))") auto

text \<open>
  \<open>calculateStats(records)\<close>, as a function from the \<open>stats\<close> state before the call to
  the \<open>stats\<close> state after it, or to the exception raised.
\<close>

definition calculateStats :: "TrackingRecord list \<Rightarrow> Stats \<Rightarrow> error + Stats" where
  "calculateStats records st =
     (if length records = 0 then
        Inr (setStats \<lparr>totalRecords = 0, avgSpeed = 0, maxSpeed = 0, totalDistance = 0\<rparr> st)
      else
        (let speeds = map speed records;
             avg = foldl (+) 0 speeds / real (length speeds);
             mx = Math_max (hd speeds) (tl speeds)
         in case distanceLoop records 1 0 of
              Inl e \<Rightarrow> Inl e
            | Inr totalDist \<Rightarrow>
                Inr (setStats \<lparr>totalRecords = length records, avgSpeed = avg,
                               maxSpeed = mx, totalDistance = totalDist\<rparr> st)))"

subsection \<open>The terms of the loop, named\<close>

text \<open>The value of the local constant \<open>a\<close> of the loop body.\<close>

definition haversine_a :: "real \<Rightarrow> real \<Rightarrow> real \<Rightarrow> real \<Rightarrow> real" where
  "haversine_a lat1 lon1 lat2 lon2 =
     sin ((((lat2 - lat1) * pi) / 180) / 2) * sin ((((lat2 - lat1) * pi) / 180) / 2) +
     cos ((lat1 * pi) / 180) * cos ((lat2 * pi) / 180) *
       sin ((((lon2 - lon1) * pi) / 180) / 2) * sin ((((lon2 - lon1) * pi) / 180) / 2)"

text \<open>
  The sum of \<open>d x y\<close> over the pairs \<open>(x, y)\<close> of neighbours in a list, from the front.
\<close>

fun sumAdjacent :: "('a \<Rightarrow> 'a \<Rightarrow> real) \<Rightarrow> 'a list \<Rightarrow> real" where
  "sumAdjacent d (x # y # zs) = d x y + sumAdjacent d (y # zs)"
| "sumAdjacent d zs = 0"

text \<open>What the loop adds up: \<open>records[i]\<close> against \<open>records[i - 1]\<close> for every \<open>i \<ge> 1\<close>.\<close>

definition pathLength :: "TrackingRecord list \<Rightarrow> real" where
  "pathLength records = sumAdjacent (\<lambda>r_prev r_i. segmentDistance r_i r_prev) records"

subsection \<open>\<open>calculateStats\<close> over the arithmetic of an engine\<close>

text \<open>
  The operations on numbers that the body of \<open>calculateStats\<close> uses, on the numbers
  \<open>'n\<close> of an engine. \<open>op_lit x\<close> is the number that a literal or a record field of
  value \<open>x\<close> denotes; \<open>op_max\<close> is \<open>Math.max\<close> applied to the elements of an array.
\<close>

record 'n arith =
  op_lit :: "real \<Rightarrow> 'n"
  op_add :: "'n \<Rightarrow> 'n \<Rightarrow> 'n"
  op_sub :: "'n \<Rightarrow> 'n \<Rightarrow> 'n"
  op_mul :: "'n \<Rightarrow> 'n \<Rightarrow> 'n"
  op_div :: "'n \<Rightarrow> 'n \<Rightarrow> 'n"
  op_PI :: 'n
  op_sin :: "'n \<Rightarrow> 'n"
  op_cos :: "'n \<Rightarrow> 'n"
  op_sqrt :: "'n \<Rightarrow> 'n"
  op_atan2 :: "'n \<Rightarrow> 'n \<Rightarrow> 'n"
  op_max :: "'n list \<Rightarrow> 'n"



text \<open>
  The body of the \<open>for\<close> loop for one index, operation by operation: \<open>r_i\<close> is
  \<open>records[i]\<close> and \<open>r_prev\<close> is \<open>records[i - 1]\<close>.
\<close>

definition segmentDistance_on :: "'n arith \<Rightarrow> TrackingRecord \<Rightarrow> TrackingRecord \<Rightarrow> 'n" where
  "segmentDistance_on A r_i r_prev =
     (let lat1 = op_lit A (latitude r_i);
          lon1 = op_lit A (longitude r_i);
          lat2 = op_lit A (latitude r_prev);
          lon2 = op_lit A (longitude r_prev);
          R = op_lit A 6371;
          dLat = op_div A (op_mul A (op_sub A lat2 lat1) (op_PI A)) (op_lit A 180);
          dLon = op_div A (op_mul A (op_sub A lon2 lon1) (op_PI A)) (op_lit A 180);
          a = op_add A
                (op_mul A (op_sin A (op_div A dLat (op_lit A 2)))
                          (op_sin A (op_div A dLat (op_lit A 2))))
                (op_mul A
                  (op_mul A
                    (op_mul A (op_cos A (op_div A (op_mul A lat1 (op_PI A)) (op_lit A 180)))
                              (op_cos A (op_div A (op_mul A lat2 (op_PI A)) (op_lit A 180))))
                    (op_sin A (op_div A dLon (op_lit A 2))))
                  (op_sin A (op_div A dLon (op_lit A 2))));
          c = op_mul A (op_lit A 2)
                (op_atan2 A (op_sqrt A a) (op_sqrt A (op_sub A (op_lit A 1) a)))
      in op_mul A R c)"

text \<open>
  \<open>for (let i = 1; i < records.length; i++) totalDistance += R * c\<close>. The index and the
  length are integers; the running total is a number of the engine.
\<close>

function distanceLoop_on ::
  "'n arith \<Rightarrow> TrackingRecord list \<Rightarrow> int \<Rightarrow> 'n \<Rightarrow> error + 'n" where
  "distanceLoop_on A records i totalDist =
     (if i < int (length records) then
        (case nth_js records i of
           Inl e \<Rightarrow> Inl e
         | Inr r_i \<Rightarrow>
             (case nth_js records (i - 1) of
                Inl e \<Rightarrow> Inl e
              | Inr r_prev \<Rightarrow>
                  distanceLoop_on A records (i + 1)
                    (op_add A totalDist (segmentDistance_on A r_i r_prev))))
      else Inr totalDist)"
  by pat_completeness auto
termination
  by (relation "measure (\<lambda>(A, records, i, totalDist). nat (int (length records) - i))") auto


text \<open>
  The arithmetic of the exact model. (\<open>Math.max\<close> is applied to a non-empty array
  there, as in \<open>calculateStats\<close>.)
\<close>

definition real_arith :: "real arith" where
  "real_arith =
     \<lparr>op_lit = (\<lambda>x. x), op_add = (+), op_sub = (-), op_mul = (*), op_div = (/),
      op_PI = pi, op_sin = sin, op_cos = cos, op_sqrt = sqrt, op_atan2 = Math_atan2,
      op_max = (\<lambda>xs. Math_max (hd xs) (tl xs))\<rparr>"


subsection \<open>The specification's total distance\<close>

text \<open>
  The specification's pair distance, in its own words: \<open>\<phi>1\<close>, \<open>\<phi>2\<close> the latitudes in
  radians, \<open>\<Delta>\<phi>\<close> and \<open>\<Delta>\<lambda>\<close> the differences in latitude and longitude in radians,
  \<open>a = sin\<^sup>2(\<Delta>\<phi>/2) + cos \<phi>1 \<sqdot> cos \<phi>2 \<sqdot> sin\<^sup>2(\<Delta>\<lambda>/2)\<close>, \<open>c = 2 \<sqdot> atan2(\<surd>a, \<surd>(1 - a))\<close>,
  distance \<open>6371 \<sqdot> c\<close>.
\<close>

definition spec_pairDistance :: "TrackingRecord \<Rightarrow> TrackingRecord \<Rightarrow> real" where
  "spec_pairDistance s1 s2 =
     (let phi1 = latitude s1 * pi / 180;
          phi2 = latitude s2 * pi / 180;
          dphi = phi2 - phi1;
          dlambda = longitude s2 * pi / 180 - longitude s1 * pi / 180;
          a = (sin (dphi / 2))\<^sup>2 + cos phi1 * cos phi2 * (sin (dlambda / 2))\<^sup>2;
          c = 2 * Math_atan2 (sqrt a) (sqrt (1 - a))
      in 6371 * c)"

text \<open>
  The samples in chronological order. A timestamp is a string; \<open>instant\<close> reads it as
  a point of time, in any linear order. (The timestamps of one format and one UTC offset
  compare as strings the way their instants compare in time; for those \<open>instant\<close> can
  be the identity.)
\<close>

definition chronological_by :: "(string \<Rightarrow> 'i::linorder) \<Rightarrow> TrackingRecord list \<Rightarrow> TrackingRecord list" where
  "chronological_by instant records = sort_key (\<lambda>r. instant (timestamp r)) records"

text \<open>
  The specification's \<open>totalDistanceKm\<close>: the sum of the pair distance over each pair of
  temporally adjacent samples.
\<close>

definition spec_totalDistanceKm :: "(string \<Rightarrow> 'i::linorder) \<Rightarrow> TrackingRecord list \<Rightarrow> real" where
  "spec_totalDistanceKm instant records = sumAdjacent spec_pairDistance (chronological_by instant records)"

subsection \<open>The average speed in binary64\<close>

text \<open>
  Rounding a real to the nearest integer, a tie going to the even neighbour.
\<close>

definition roundTiesToEven :: "real \<Rightarrow> int" where
  "roundTiesToEven x =
     (let n = \<lfloor>x\<rfloor>; r = x - real_of_int n
      in if r < 1 / 2 then n
         else if 1 / 2 < r then n + 1
         else if even n then n else n + 1)"

text \<open>
  The binary64 number nearest to a real \<open>x\<close>: 53 significant bits, the unit in the last
  place being \<open>2\<^sup>e\<close> with \<open>e = max \<lfloor>log\<^sub>2 |x|\<rfloor> (-1022) - 52\<close> (the \<open>max\<close> covers the
  subnormal numbers). \<open>None\<close> stands for a result that is not a finite number: the
  rounded value overflows to \<open>\<plusminus>Infinity\<close> from \<open>2\<^sup>1\<^sup>0\<^sup>2\<^sup>4\<close> on. The sign of zero is not
  modelled.
\<close>

definition binary64 :: "real \<Rightarrow> real option" where
  "binary64 x =
     (if x = 0 then Some 0
      else let e = max \<lfloor>log 2 \<bar>x\<bar>\<rfloor> (- 1022) - 52;
               y = real_of_int (roundTiesToEven (x / 2 powr real_of_int e)) * 2 powr real_of_int e
           in if \<bar>y\<bar> < 2 ^ 1024 then Some y else None)"

text \<open>
  \<open>x + y\<close> and \<open>x / y\<close> on finite numbers: the exact result, rounded. A division by
  zero yields \<open>\<plusminus>Infinity\<close> or \<open>NaN\<close>.
\<close>

definition number_add :: "real \<Rightarrow> real \<Rightarrow> real option" where
  "number_add x y = binary64 (x + y)"

definition number_div :: "real \<Rightarrow> real \<Rightarrow> real option" where
  "number_div x y = (if y = 0 then None else binary64 (x / y))"

text \<open>
  \<open>speeds.reduce((a, b) => a + b, a0)\<close>. Once a sum is not finite, no later sum and no
  quotient of it is.
\<close>

fun reduce_add :: "real \<Rightarrow> real list \<Rightarrow> real option" where
  "reduce_add a [] = Some a"
| "reduce_add a (b # bs) =
     (case number_add a b of None \<Rightarrow> None | Some s \<Rightarrow> reduce_add s bs)"

text \<open>
  \<open>const speeds = records.map((r) => r.speed);
  const avgSpeed = speeds.reduce((a, b) => a + b, 0) / speeds.length\<close>, in binary64.
\<close>

definition avgSpeed_binary64 :: "TrackingRecord list \<Rightarrow> real option" where
  "avgSpeed_binary64 records =
     (let speeds = map speed records
      in case reduce_add 0 speeds of
           None \<Rightarrow> None
         | Some s \<Rightarrow> number_div s (real (length speeds)))"

text \<open>
  The multiples of the least positive binary64 number, \<open>2\<^sup>-\<^sup>1\<^sup>0\<^sup>7\<^sup>4\<close>: every binary64
  number is one, and so is every sum of two of them.
\<close>

definition onGrid :: "real \<Rightarrow> bool" where
  "onGrid x \<longleftrightarrow> (\<exists>m::int. x = real_of_int m * 2 powr (- 1074))"

text \<open>
  The bound on the distance of the binary64 average of \<open>n\<close> speeds from their
  arithmetic mean: \<open>((1 + u)\<^sup>n\<^sup>+\<^sup>1 - 1)\<close> times the mean of the absolute speeds, with
  \<open>u = 2\<^sup>-\<^sup>5\<^sup>3\<close> the unit roundoff (\<open>n\<close> roundings of the sum and one of the quotient),
  plus half the least positive number, for a quotient in the subnormal range.
\<close>

definition roundingTolerance :: "TrackingRecord list \<Rightarrow> real" where
  "roundingTolerance records =
     ((1 + 2 powr (- 53)) ^ (length records + 1) - 1) *
       (sum_list (map (\<lambda>r. \<bar>speed r\<bar>) records) / real (length records))
     + 2 powr (- 1075)"

subsection \<open>Sample values\<close>

text \<open>
  A tracking record without heading, and the initial \<open>stats\<close> state of the page, in
  the exact model and over the arithmetic \<open>real_arith\<close>.
\<close>

definition mkRecord :: "string \<Rightarrow> real \<Rightarrow> real \<Rightarrow> real \<Rightarrow> string \<Rightarrow> TrackingRecord" where
  "mkRecord i lat lon v ts =
     \<lparr>rec_id = i, latitude = lat, longitude = lon, speed = v, timestamp = ts, heading = None\<rparr>"

definition zeroStats :: Stats where
  "zeroStats = \<lparr>totalRecords = 0, avgSpeed = 0, maxSpeed = 0, totalDistance = 0\<rparr>"


section \<open>The loop in closed form\<close>

declare distanceLoop.simps [simp del]

lemma nth_js_in: "0 \<le> i \<Longrightarrow> i < int (length xs) \<Longrightarrow> nth_js xs i = Inr (xs ! nat i)"
  by (simp add: nth_js_def)

lemma pathLength_simps:
  "pathLength (x # y # zs) = segmentDistance y x + pathLength (y # zs)"
  "pathLength [x] = 0"
  "pathLength [] = 0"
  by (simp_all add: pathLength_def)

lemma pathLength_drop:
  assumes "Suc k < length rs"
  shows "pathLength (drop k rs) =
    segmentDistance (rs ! Suc k) (rs ! k) + pathLength (drop (Suc k) rs)"
proof -
  from assms have "drop k rs = rs ! k # rs ! Suc k # drop (Suc (Suc k)) rs"
    by (simp add: Cons_nth_drop_Suc Suc_lessD)
  moreover from assms have "drop (Suc k) rs = rs ! Suc k # drop (Suc (Suc k)) rs"
    by (simp add: Cons_nth_drop_Suc)
  ultimately show ?thesis by (simp add: pathLength_simps)
qed

lemma pathLength_short:
  assumes "length rs \<le> Suc k"
  shows "pathLength (drop k rs) = 0"
proof (cases "drop k rs")
  case Nil
  then show ?thesis by (simp add: pathLength_simps)
next
  case (Cons x xs)
  from assms have "length (drop k rs) \<le> 1" by simp
  with Cons have "xs = []" by simp
  with Cons show ?thesis by (simp add: pathLength_simps)
qed

text \<open>
  From index \<open>i \<ge> 1\<close> on, the loop raises nothing and adds the distances of the remaining
  neighbours to the running total.
\<close>

lemma distanceLoop_pathLength:
  "1 \<le> i \<Longrightarrow> distanceLoop rs i acc = Inr (acc + pathLength (drop (nat i - 1) rs))"
proof (induction rs i acc rule: distanceLoop.induct)
  case (1 records i totalDist)
  show ?case
  proof (cases "i < int (length records)")
    case True
    with "1.prems" have a: "nth_js records i = Inr (records ! nat i)"
      and b: "nth_js records (i - 1) = Inr (records ! nat (i - 1))"
      by (simp_all add: nth_js_in)
    from "1.prems" have n: "nat i = Suc (nat i - 1)" "nat (i - 1) = nat i - 1"
      "nat (i + 1) - 1 = nat i" by auto
    from True "1.prems" have lt: "Suc (nat i - 1) < length records" by auto
    have "distanceLoop records i totalDist =
        distanceLoop records (i + 1)
          (totalDist + segmentDistance (records ! nat i) (records ! nat (i - 1)))"
      using True a b by (subst distanceLoop.simps) simp
    also have "\<dots> = Inr (totalDist + segmentDistance (records ! nat i) (records ! nat (i - 1))
                         + pathLength (drop (nat (i + 1) - 1) records))"
      using "1.IH"[OF True a b] "1.prems" by simp
    also have "\<dots> = Inr (totalDist + pathLength (drop (nat i - 1) records))"
      using pathLength_drop[OF lt] n by (simp add: add.assoc)
    finally show ?thesis .
  next
    case False
    with "1.prems" have "length records \<le> Suc (nat i - 1)" by auto
    then have "pathLength (drop (nat i - 1) records) = 0" by (rule pathLength_short)
    with False show ?thesis by (subst distanceLoop.simps) simp
  qed
qed

lemma distanceLoop_start: "distanceLoop rs 1 0 = Inr (pathLength rs)"
  using distanceLoop_pathLength[of 1 rs 0] by simp

lemma foldl_add_sum_list: "foldl (+) a xs = a + sum_list xs" for a :: real
  by (induction xs arbitrary: a) (simp_all add: add.assoc)

lemma foldl_max_Max: "foldl max x xs = Max (insert x (set xs))" for x :: real
proof (induction xs arbitrary: x)
  case Nil
  show ?case by simp
next
  case (Cons y ys)
  have "foldl max x (y # ys) = Max (insert (max x y) (set ys))"
    using Cons.IH by simp
  also have "\<dots> = Max (insert x (insert y (set ys)))"
  proof (cases "ys = []")
    case True
    then show ?thesis by simp
  next
    case False
    then show ?thesis by (simp add: max.assoc)
  qed
  finally show ?case by simp
qed

text \<open>The result of \<open>calculateStats\<close> on a non-empty array, in closed form.\<close>

lemma calculateStats_nonempty:
  assumes "rs \<noteq> []"
  shows "calculateStats rs st =
     Inr \<lparr>totalRecords = length rs, avgSpeed = sum_list (map speed rs) / real (length rs),
          maxSpeed = Max (speed ` set rs), totalDistance = pathLength rs\<rparr>"
proof -
  from assms obtain r rs' where rs: "rs = r # rs'" by (cases rs) auto
  have mx: "Math_max (hd (map speed rs)) (tl (map speed rs)) = Max (speed ` set rs)"
    unfolding Math_max_def foldl_max_Max by (simp add: rs)
  have av: "foldl (+) 0 (map speed rs) = sum_list (map speed rs)"
    by (simp add: foldl_add_sum_list)
  show ?thesis
    unfolding calculateStats_def Let_def mx av distanceLoop_start setStats_def
    by (simp add: rs)
qed

section \<open>The haversine term\<close>

lemma segmentDistance_a:
  "segmentDistance p q =
     6371 * (2 * Math_atan2
       (sqrt (haversine_a (latitude p) (longitude p) (latitude q) (longitude q)))
       (sqrt (1 - haversine_a (latitude p) (longitude p) (latitude q) (longitude q))))"
  by (simp add: segmentDistance_def haversine_a_def Let_def)

lemma sin_half_diff:
  "sin (((x - y) * pi) / 180 / 2) = - sin (((y - x) * pi) / 180 / 2)" for x y :: real
proof -
  have "((x - y) * pi) / 180 / 2 = - (((y - x) * pi) / 180 / 2)"
    by (simp add: field_simps)
  then show ?thesis by (simp only: sin_minus)
qed

lemma haversine_a_sym: "haversine_a lat1 lon1 lat2 lon2 = haversine_a lat2 lon2 lat1 lon1"
proof -
  define A where "A = sin (((lat1 - lat2) * pi) / 180 / 2)"
  define B where "B = sin (((lon1 - lon2) * pi) / 180 / 2)"
  have a: "sin (((lat2 - lat1) * pi) / 180 / 2) = - A"
    unfolding A_def by (rule sin_half_diff)
  have b: "sin (((lon2 - lon1) * pi) / 180 / 2) = - B"
    unfolding B_def by (rule sin_half_diff)
  show ?thesis
    unfolding haversine_a_def a b A_def[symmetric] B_def[symmetric]
    by (simp add: mult.commute)
qed

lemma segmentDistance_sym: "segmentDistance p q = segmentDistance q p"
  unfolding segmentDistance_a
  by (simp only: haversine_a_sym[of "latitude p" "longitude p"])

lemma cos_mult_cos:
  "cos p * cos q = (cos ((p + q) / 2))\<^sup>2 - (sin ((q - p) / 2))\<^sup>2" for p q :: real
proof -
  define m where "m = (p + q) / 2"
  define h where "h = (q - p) / 2"
  have p: "p = m - h" and q: "q = m + h" by (simp_all add: m_def h_def field_simps)
  have "cos p * cos q = (cos m * cos h + sin m * sin h) * (cos m * cos h - sin m * sin h)"
    by (simp add: p q cos_diff cos_add)
  also have "\<dots> = (cos m)\<^sup>2 * (cos h)\<^sup>2 - (sin m)\<^sup>2 * (sin h)\<^sup>2"
    by (simp add: algebra_simps power2_eq_square)
  also have "\<dots> = (cos m)\<^sup>2 * (1 - (sin h)\<^sup>2) - (1 - (cos m)\<^sup>2) * (sin h)\<^sup>2"
    by (simp add: cos_squared_eq[of h] sin_squared_eq[of m])
  also have "\<dots> = (cos m)\<^sup>2 - (sin h)\<^sup>2"
    by (simp add: algebra_simps)
  finally show ?thesis by (simp add: m_def h_def)
qed

lemma convex_unit:
  fixes u v s :: real
  assumes "0 \<le> u" "u \<le> 1" "0 \<le> v" "v \<le> 1" "0 \<le> s" "s \<le> 1"
  shows "0 \<le> u * (1 - s) + v * s" "u * (1 - s) + v * s \<le> 1"
proof -
  show "0 \<le> u * (1 - s) + v * s" using assms by simp
  have "u * (1 - s) \<le> 1 * (1 - s)" using assms by (intro mult_right_mono) simp_all
  moreover have "v * s \<le> 1 * s" using assms by (intro mult_right_mono) simp_all
  ultimately show "u * (1 - s) + v * s \<le> 1" by simp
qed

text \<open>
  Whatever the coordinates, \<open>a\<close> lies in \<open>[0, 1]\<close>, so that neither \<open>Math.sqrt(a)\<close> nor
  \<open>Math.sqrt(1 - a)\<close> is taken of a negative number.
\<close>

lemma haversine_a_range:
  "0 \<le> haversine_a lat1 lon1 lat2 lon2" "haversine_a lat1 lon1 lat2 lon2 \<le> 1"
proof -
  define p where "p = (lat1 * pi) / 180"
  define q where "q = (lat2 * pi) / 180"
  define u where "u = (sin ((q - p) / 2))\<^sup>2"
  define v where "v = (cos ((p + q) / 2))\<^sup>2"
  define s where "s = (sin ((((lon2 - lon1) * pi) / 180) / 2))\<^sup>2"
  have d: "(((lat2 - lat1) * pi) / 180) / 2 = (q - p) / 2"
    by (simp add: p_def q_def algebra_simps diff_divide_distrib)
  have "haversine_a lat1 lon1 lat2 lon2 = u + (cos p * cos q) * s"
    unfolding haversine_a_def d u_def s_def p_def q_def by (simp add: power2_eq_square)
  also have "\<dots> = u * (1 - s) + v * s"
    unfolding cos_mult_cos u_def v_def by (simp add: algebra_simps)
  finally have eq: "haversine_a lat1 lon1 lat2 lon2 = u * (1 - s) + v * s" .
  have b: "0 \<le> u" "u \<le> 1" "0 \<le> v" "v \<le> 1" "0 \<le> s" "s \<le> 1"
    by (simp_all add: u_def v_def s_def abs_square_le_1)
  show "0 \<le> haversine_a lat1 lon1 lat2 lon2" "haversine_a lat1 lon1 lat2 lon2 \<le> 1"
    unfolding eq using convex_unit[OF b] by simp_all
qed

lemma Math_atan2_nonneg:
  assumes "0 \<le> y"
  shows "0 \<le> Math_atan2 y x"
proof -
  consider "0 < x" | "x < 0" | "x = 0" by linarith
  then show ?thesis
  proof cases
    case 1
    with assms have "0 \<le> y / x" by simp
    then have "0 \<le> arctan (y / x)" by (simp only: zero_le_arctan_iff)
    with 1 show ?thesis by (simp add: Math_atan2_def)
  next
    case 2
    have "- (pi / 2) < arctan (y / x)" by (rule arctan_lbound)
    then have "0 \<le> arctan (y / x) + pi" using pi_gt_zero by linarith
    with 2 assms show ?thesis by (simp add: Math_atan2_def)
  next
    case 3
    with assms show ?thesis by (simp add: Math_atan2_def)
  qed
qed

lemma segmentDistance_nonneg: "0 \<le> segmentDistance p q"
  unfolding segmentDistance_a
  by (intro mult_nonneg_nonneg Math_atan2_nonneg) (simp_all add: haversine_a_range)

lemma sumAdjacent_nonneg: "(\<And>x y. 0 \<le> d x y) \<Longrightarrow> 0 \<le> sumAdjacent d rs"
  by (induction d rs rule: sumAdjacent.induct) simp_all

lemma pathLength_nonneg: "0 \<le> pathLength rs"
  unfolding pathLength_def by (rule sumAdjacent_nonneg) (rule segmentDistance_nonneg)

lemma Math_atan2_sin_cos:
  assumes "0 \<le> y" "y \<le> pi / 2"
  shows "Math_atan2 (sin y) (cos y) = y"
proof (cases "y < pi / 2")
  case True
  with assms have c: "0 < cos y" by (intro cos_gt_zero_pi) simp_all
  have "arctan (sin y / cos y) = arctan (tan y)" by (simp add: tan_def)
  also have "\<dots> = y" using assms True by (intro arctan_tan) simp_all
  finally show ?thesis using c by (simp add: Math_atan2_def)
next
  case False
  with assms have y: "y = pi / 2" by simp
  show ?thesis unfolding y by (simp add: Math_atan2_def)
qed


lemma sin_abs_sq: "sin \<bar>x\<bar> * sin \<bar>x\<bar> = sin x * sin x" for x :: real
  by (cases "0 \<le> x") (simp_all add: abs_if)

text \<open>On the equator the distance is the arc of the difference in longitude.\<close>

lemma segmentDistance_equator:
  assumes "latitude p = 0" "latitude q = 0" "\<bar>longitude q - longitude p\<bar> \<le> 180"
  shows "segmentDistance p q = 6371 * (\<bar>longitude q - longitude p\<bar> * pi / 180)"
proof -
  define x where "x = ((longitude q - longitude p) * pi) / 180 / 2"
  define y where "y = \<bar>x\<bar>"
  have y_eq: "y = \<bar>longitude q - longitude p\<bar> * pi / 360"
    by (simp add: y_def x_def abs_mult)
  have y0: "0 \<le> y" by (simp add: y_def)
  have "\<bar>longitude q - longitude p\<bar> * pi \<le> 180 * pi"
    using assms(3) by (intro mult_right_mono) simp_all
  then have y1: "y \<le> pi / 2" by (simp add: y_eq)
  have s: "0 \<le> sin y" using y0 y1 pi_gt_zero by (intro sin_ge_zero) linarith+
  have c: "0 \<le> cos y" using y0 y1 by (intro cos_ge_zero) linarith+
  have "haversine_a 0 (longitude p) 0 (longitude q) = sin x * sin x"
    unfolding haversine_a_def x_def by simp
  also have "\<dots> = (sin y)\<^sup>2"
    unfolding y_def power2_eq_square by (rule sin_abs_sq[symmetric])
  finally have a: "haversine_a (latitude p) (longitude p) (latitude q) (longitude q) = (sin y)\<^sup>2"
    by (simp only: assms(1,2))
  have "segmentDistance p q =
      6371 * (2 * Math_atan2 (sqrt ((sin y)\<^sup>2)) (sqrt (1 - (sin y)\<^sup>2)))"
    by (simp only: segmentDistance_a a)
  also have "1 - (sin y)\<^sup>2 = (cos y)\<^sup>2" by (simp add: cos_squared_eq)
  also have "sqrt ((sin y)\<^sup>2) = sin y" using s by simp
  also have "sqrt ((cos y)\<^sup>2) = cos y" using c by simp
  also have "Math_atan2 (sin y) (cos y) = y" using y0 y1 by (rule Math_atan2_sin_cos)
  finally show ?thesis by (simp add: y_eq)
qed

section \<open>Bounds on \<open>\<pi>\<close>\<close>

lemma sin_poly8:
  "(\<Sum>m<8. sin_coeff m * x ^ m) = x - x^3 / 6 + x^5 / 120 - x^7 / 5040" for x :: real
proof -
  have "{..<8::nat} = {0, 1, 2, 3, 4, 5, 6, 7}" by auto
  then show ?thesis by (simp add: sin_coeff_def fact_numeral)
qed

lemma sin_lower_pt: "sin (5232 / 10000 :: real) < 1 / 2"
proof -
  have "(\<Sum>m<8. sin_coeff m * (5232 / 10000 :: real) ^ m)
      + inverse (fact 8) * \<bar>5232 / 10000\<bar> ^ 8 < 1 / 2"
    unfolding sin_poly8 by (simp add: fact_numeral power_divide)
  then show ?thesis using Maclaurin_sin_bound[of "5232 / 10000" 8] by linarith
qed

lemma sin_upper_pt: "1 / 2 < sin (5240 / 10000 :: real)"
proof -
  have "1 / 2 < (\<Sum>m<8. sin_coeff m * (5240 / 10000 :: real) ^ m)
      - inverse (fact 8) * \<bar>5240 / 10000\<bar> ^ 8"
    unfolding sin_poly8 by (simp add: fact_numeral power_divide)
  then show ?thesis using Maclaurin_sin_bound[of "5240 / 10000" 8] by linarith
qed

lemma pi_lower: "31392 / 10000 < pi"
proof -
  have "sin (5232 / 10000 :: real) < sin (pi / 6)" using sin_lower_pt by (simp add: sin_30)
  moreover have "- (pi / 2) \<le> (5232 / 10000 :: real)" "(5232 / 10000 :: real) \<le> pi / 2"
    using pi_ge_two by linarith+
  moreover have "- (pi / 2) \<le> pi / 6" "pi / 6 \<le> pi / 2" using pi_gt_zero by linarith+
  ultimately have "5232 / 10000 < pi / 6" by (simp only: sin_mono_less_eq)
  then show ?thesis by simp
qed

lemma pi_upper: "pi < 3144 / 1000"
proof -
  have "sin (pi / 6) < sin (5240 / 10000 :: real)" using sin_upper_pt by (simp add: sin_30)
  moreover have "- (pi / 2) \<le> (5240 / 10000 :: real)" "(5240 / 10000 :: real) \<le> pi / 2"
    using pi_ge_two by linarith+
  moreover have "- (pi / 2) \<le> pi / 6" "pi / 6 \<le> pi / 2" using pi_gt_zero by linarith+
  ultimately have "pi / 6 < 5240 / 10000" by (simp only: sin_mono_less_eq)
  then show ?thesis by simp
qed

section \<open>Reversal\<close>

lemma sumAdjacent_snoc:
  "sumAdjacent d (xs @ [y, z]) = sumAdjacent d (xs @ [y]) + d y z"
proof (induction xs rule: induct_list012)
  case (3 a b cs)
  then show ?case by simp
qed simp_all

lemma sumAdjacent_rev: "sumAdjacent d (rev rs) = sumAdjacent (\<lambda>x y. d y x) rs"
proof (induction rs rule: induct_list012)
  case (3 x y zs)
  have "sumAdjacent d (rev (x # y # zs)) = sumAdjacent d (rev zs @ [y, x])" by simp
  also have "\<dots> = sumAdjacent d (rev zs @ [y]) + d y x"
    by (rule sumAdjacent_snoc)
  also have "rev zs @ [y] = rev (y # zs)" by simp
  finally show ?case using "3.IH"(2) by simp
qed simp_all

lemma pathLength_rev: "pathLength (rev rs) = pathLength rs"
proof -
  have eq: "(\<lambda>x y. segmentDistance x y) = (\<lambda>x y. segmentDistance y x)"
    by (intro ext) (rule segmentDistance_sym)
  have "pathLength (rev rs) = sumAdjacent (\<lambda>x y. segmentDistance x y) rs"
    unfolding pathLength_def by (rule sumAdjacent_rev)
  also have "\<dots> = sumAdjacent (\<lambda>x y. segmentDistance y x) rs"
    by (rule arg_cong[where f = "\<lambda>d. sumAdjacent d rs", OF eq])
  also have "\<dots> = pathLength rs"
    by (simp only: pathLength_def)
  finally show ?thesis .
qed

section \<open>Mean, maximum and the chronological order\<close>

lemma mkRecord_sel [simp]:
  "latitude (mkRecord i lat lon v ts) = lat"
  "longitude (mkRecord i lat lon v ts) = lon"
  "speed (mkRecord i lat lon v ts) = v"
  "timestamp (mkRecord i lat lon v ts) = ts"
  by (simp_all add: mkRecord_def)

lemma sum_list_le_Max:
  fixes xs :: "real list"
  shows "sum_list xs \<le> real (length xs) * Max (set xs)"
proof -
  have "sum_list (map (\<lambda>x. x) xs) \<le> sum_list (map (\<lambda>x. Max (set xs)) xs)"
    by (rule sum_list_mono) simp
  then show ?thesis by (simp add: sum_list_triv)
qed

lemma mean_le_Max:
  fixes xs :: "real list"
  assumes "xs \<noteq> []"
  shows "sum_list xs / real (length xs) \<le> Max (set xs)"
proof -
  from assms have "0 < real (length xs)" by simp
  then show ?thesis using sum_list_le_Max[of xs] by (simp add: pos_divide_le_eq mult.commute)
qed

lemma spec_pairDistance_eq: "spec_pairDistance s1 s2 = segmentDistance s1 s2"
proof -
  have d: "(y * pi / 180 - x * pi / 180) / 2 = ((y - x) * pi) / 180 / 2" for x y :: real
    by (simp add: field_simps)
  show ?thesis
    unfolding spec_pairDistance_def segmentDistance_def Let_def d power2_eq_square
    by (simp add: mult.assoc)
qed

lemma sumAdjacent_spec: "sumAdjacent spec_pairDistance rs = pathLength rs"
proof -
  have eq: "spec_pairDistance = (\<lambda>x y. segmentDistance y x)"
    by (intro ext) (simp add: spec_pairDistance_eq segmentDistance_sym)
  show ?thesis unfolding pathLength_def by (rule arg_cong[where f = "\<lambda>d. sumAdjacent d rs", OF eq])
qed

lemma filter_key_distinct:
  "distinct (map f xs) \<Longrightarrow> k \<in> set xs \<Longrightarrow> filter (\<lambda>x. f k = f x) xs = [k]"
proof (induction xs)
  case Nil
  then show ?case by simp
next
  case (Cons a xs)
  show ?case
  proof (cases "k = a")
    case True
    from Cons.prems(1) have "\<forall>x\<in>set xs. f a \<noteq> f x" by auto
    then have "filter (\<lambda>x. f a = f x) xs = []" by (simp add: filter_empty_conv)
    with True show ?thesis by simp
  next
    case False
    with Cons.prems have k: "k \<in> set xs" by simp
    with Cons.prems(1) have ne: "f k \<noteq> f a" by (auto simp: image_iff)
    from Cons.prems(1) have "distinct (map f xs)" by simp
    then have "filter (\<lambda>x. f k = f x) xs = [k]" using k by (rule Cons.IH)
    with ne show ?thesis by simp
  qed
qed

lemma sort_key_descending:
  assumes "sorted (rev (map f xs))" "distinct (map f xs)"
  shows "sort_key f xs = rev xs"
proof (rule properties_for_sort_key)
  show "mset (rev xs) = mset xs" by simp
  show "sorted (map f (rev xs))" using assms(1) by (simp add: rev_map)
  fix k assume "k \<in> set (rev xs)"
  then have k: "k \<in> set xs" by simp
  have "filter (\<lambda>x. f k = f x) (rev xs) = rev (filter (\<lambda>x. f k = f x) xs)" by (simp add: rev_filter)
  also have "\<dots> = filter (\<lambda>x. f k = f x) xs" using filter_key_distinct[OF assms(2) k] by simp
  finally show "filter (\<lambda>x. f k = f x) (rev xs) = filter (\<lambda>x. f k = f x) xs" .
qed

lemma spec_total_sorted:
  assumes "sorted (map (\<lambda>r. instant (timestamp r)) rs) \<or>
           sorted (rev (map (\<lambda>r. instant (timestamp r)) rs)) \<and>
           distinct (map (\<lambda>r. instant (timestamp r)) rs)"
  shows "spec_totalDistanceKm instant rs = pathLength rs"
proof -
  from assms have "chronological_by instant rs = rs \<or> chronological_by instant rs = rev rs"
    unfolding chronological_by_def by (auto simp: sort_key_id_if_sorted sort_key_descending)
  then show ?thesis
    unfolding spec_totalDistanceKm_def sumAdjacent_spec by (auto simp: pathLength_rev)
qed

lemma calculateStats_total:
  "calculateStats rs st = Inr \<lparr>totalRecords = length rs,
      avgSpeed = (if rs = [] then 0 else sum_list (map speed rs) / real (length rs)),
      maxSpeed = (if rs = [] then 0 else Max (speed ` set rs)),
      totalDistance = pathLength rs\<rparr>"
proof (cases "rs = []")
  case True
  then show ?thesis by (simp add: calculateStats_def setStats_def pathLength_simps)
next
  case False
  then show ?thesis by (simp add: calculateStats_nonempty)
qed

section \<open>The total distance in exact arithmetic\<close>

text \<open>
  Two facts of the exact model. They do not carry over to binary64 as they stand:
  nothing keeps the rounded value of \<open>a\<close> at or below 1 (above it,
  \<open>Math.sqrt(1 - a)\<close> and with it the total are \<open>NaN\<close>), and binary64 addition is not
  associative, so the running sum of the same distances in the opposite order need not
  end in the same last bit.
\<close>

lemma totalDistance_nonneg_exact:
  "\<exists>s. calculateStats records st = Inr s \<and> 0 \<le> totalDistance s"
  unfolding calculateStats_total by (simp add: pathLength_nonneg)

lemma totalDistance_reversal_exact:
  "\<exists>s s'. calculateStats records st = Inr s \<and> calculateStats (rev records) st = Inr s' \<and>
          totalDistance s' = totalDistance s"
  unfolding calculateStats_total by (simp add: pathLength_rev)

section \<open>Evaluating binary64 sums and quotients\<close>

text \<open>
  When \<open>2\<^sup>k \<le> |x| < 2\<^sup>k\<^sup>+\<^sup>1\<close> in the normal range, \<open>x\<close> rounds to \<open>m \<sqdot> 2\<^sup>k\<^sup>-\<^sup>5\<^sup>2\<close>, where \<open>m\<close> is
  \<open>x / 2\<^sup>k\<^sup>-\<^sup>5\<^sup>2\<close> rounded to an integer.
\<close>

lemma binary64_eval:
  assumes "2 powr real_of_int k \<le> \<bar>x\<bar>" "\<bar>x\<bar> < 2 powr real_of_int (k + 1)" "- 1022 \<le> k"
    and "roundTiesToEven (x / 2 powr real_of_int (k - 52)) = m"
    and "\<bar>real_of_int m * 2 powr real_of_int (k - 52)\<bar> < 2 ^ 1024"
  shows "binary64 x = Some (real_of_int m * 2 powr real_of_int (k - 52))"
proof -
  have "0 < 2 powr real_of_int k" by simp
  with assms(1) have pos: "0 < \<bar>x\<bar>" by linarith
  then have nz: "x \<noteq> 0" by simp
  have "\<lfloor>log 2 \<bar>x\<bar>\<rfloor> = k"
    using assms(1,2) pos by (subst floor_log_eq_powr_iff) simp_all
  then have e: "max \<lfloor>log 2 \<bar>x\<bar>\<rfloor> (- 1022) - 52 = k - 52" using assms(3) by simp
  show ?thesis unfolding binary64_def Let_def e using nz assms(4,5) by simp
qed

lemmas b64 = roundTiesToEven_def powr_neg_numeral

lemma d01: "binary64 (1 / 10) = Some (3602879701896397 / 2 ^ 55)"
  using binary64_eval[of "- 4" "1 / 10" 7205759403792794] by (simp add: b64)

lemma d01_fix: "binary64 (3602879701896397 / 2 ^ 55) = Some (3602879701896397 / 2 ^ 55)"
  using binary64_eval[of "- 4" "3602879701896397 / 2 ^ 55" 7205759403792794] by (simp add: b64)

lemma d01_twice:
  "binary64 (3602879701896397 / 2 ^ 55 + 3602879701896397 / 2 ^ 55) = Some (3602879701896397 / 2 ^ 54)"
  using binary64_eval[of "- 3" "3602879701896397 / 2 ^ 55 + 3602879701896397 / 2 ^ 55" 7205759403792794]
  by (simp add: b64)

lemma d02_plus_d01:
  "binary64 (3602879701896397 / 2 ^ 54 + 3602879701896397 / 2 ^ 55) = Some (5404319552844596 / 2 ^ 54)"
  using binary64_eval[of "- 2" "3602879701896397 / 2 ^ 54 + 3602879701896397 / 2 ^ 55" 5404319552844596]
  by (simp add: b64)

lemma d03x_div3:
  "binary64 (5404319552844596 / 2 ^ 54 / 3) = Some (7205759403792795 / 2 ^ 56)"
  using binary64_eval[of "- 4" "5404319552844596 / 2 ^ 54 / 3" 7205759403792795]
  by (simp add: b64)


lemma d02: "binary64 (2 / 10) = Some (3602879701896397 / 2 ^ 54)"
  using binary64_eval[of "- 3" "2 / 10" 7205759403792794] by (simp add: b64)




lemma d06x_div3:
  "binary64 (5404319552844596 / 2 ^ 53 / 3) = Some (7205759403792795 / 2 ^ 55)"
  using binary64_eval[of "- 3" "5404319552844596 / 2 ^ 53 / 3" 7205759403792795]
  by (simp add: b64)




lemma d02_fix: "binary64 (3602879701896397 / 2 ^ 54) = Some (3602879701896397 / 2 ^ 54)"
  using binary64_eval[of "- 3" "3602879701896397 / 2 ^ 54" 7205759403792794] by (simp add: b64)

lemma d02_twice:
  "binary64 (3602879701896397 / 2 ^ 54 + 3602879701896397 / 2 ^ 54) = Some (3602879701896397 / 2 ^ 53)"
  using binary64_eval[of "- 2" "3602879701896397 / 2 ^ 54 + 3602879701896397 / 2 ^ 54" 7205759403792794]
  by (simp add: b64)

lemma d04_plus_d02:
  "binary64 (3602879701896397 / 2 ^ 53 + 3602879701896397 / 2 ^ 54) = Some (5404319552844596 / 2 ^ 53)"
  using binary64_eval[of "- 1" "3602879701896397 / 2 ^ 53 + 3602879701896397 / 2 ^ 54" 5404319552844596]
  by (simp add: b64)

lemma i10: "binary64 10 = Some 10"
  using binary64_eval[of 3 10 5629499534213120] by (simp add: b64)

lemma i30: "binary64 30 = Some 30"
  using binary64_eval[of 4 30 8444249301319680] by (simp add: b64)

lemma i60: "binary64 60 = Some 60"
  using binary64_eval[of 5 60 8444249301319680] by (simp add: b64)

lemma i20: "binary64 20 = Some 20"
  using binary64_eval[of 4 20 5629499534213120] by (simp add: b64)

lemma i50: "binary64 50 = Some 50"
  using binary64_eval[of 5 50 7036874417766400] by (simp add: b64)



lemma avg_10_20_30:
  "map speed records = [10, 20, 30] \<Longrightarrow> avgSpeed_binary64 records = Some 20"
  unfolding avgSpeed_binary64_def Let_def
  by (simp add: number_add_def number_div_def i10 i30 i60 i20)


section \<open>The loop over the arithmetic of an engine\<close>

text \<open>
  Whatever the operations are, the loop raises nothing and adds the terms of the
  neighbouring pairs to the running total in the order of the array.
\<close>

declare distanceLoop_on.simps [simp del]




lemma segmentDistance_on_real: "segmentDistance_on real_arith r_i r_prev = segmentDistance r_i r_prev"
  by (simp add: segmentDistance_on_def segmentDistance_def real_arith_def Let_def)








lemma distanceLoop_on_real: "distanceLoop_on real_arith records i t = distanceLoop records i t"
proof (induction records i t rule: distanceLoop.induct)
  case (1 records i totalDist)
  show ?case
  proof (cases "i < int (length records)")
    case True
    show ?thesis
    proof (cases "0 \<le> i")
      case i0: True
      with True have a: "nth_js records i = Inr (records ! nat i)" by (simp add: nth_js_def)
      show ?thesis
      proof (cases "1 \<le> i")
        case i1: True
        with True have b: "nth_js records (i - 1) = Inr (records ! nat (i - 1))"
          by (simp add: nth_js_def)
        have "distanceLoop_on real_arith records i totalDist =
              distanceLoop_on real_arith records (i + 1)
                (totalDist + segmentDistance (records ! nat i) (records ! nat (i - 1)))"
          using True a b
          by (subst distanceLoop_on.simps) (simp add: segmentDistance_on_real, simp add: real_arith_def)
        also have "\<dots> = distanceLoop records (i + 1)
                (totalDist + segmentDistance (records ! nat i) (records ! nat (i - 1)))"
          using "1.IH"[OF True a b] .
        also have "\<dots> = distanceLoop records i totalDist"
          using True a b by (subst (2) distanceLoop.simps) simp
        finally show ?thesis .
      next
        case False
        with i0 have b: "nth_js records (i - 1) = Inl TypeError" by (simp add: nth_js_def)
        show ?thesis using True a b
          by (subst distanceLoop_on.simps, subst distanceLoop.simps) simp
      qed
    next
      case False
      then have a: "nth_js records i = Inl TypeError" by (simp add: nth_js_def)
      show ?thesis using True a
        by (subst distanceLoop_on.simps, subst distanceLoop.simps) simp
    qed
  next
    case False
    then show ?thesis by (subst distanceLoop_on.simps, subst distanceLoop.simps) simp
  qed
qed


section \<open>The rounding error of the binary64 average\<close>

text \<open>
  Rounding to binary64 moves a real by at most half a unit in the last place: a
  relative error of at most \<open>2\<^sup>-\<^sup>5\<^sup>3\<close> in the normal range, an absolute error of at most
  \<open>2\<^sup>-\<^sup>1\<^sup>0\<^sup>7\<^sup>5\<close> below it. A sum of two binary64 numbers that falls below the normal
  range is a binary64 number itself.
\<close>

lemma roundTiesToEven_error: "\<bar>real_of_int (roundTiesToEven t) - t\<bar> \<le> 1 / 2"
proof -
  have "real_of_int \<lfloor>t\<rfloor> \<le> t" "t < real_of_int \<lfloor>t\<rfloor> + 1" by linarith+
  then show ?thesis unfolding roundTiesToEven_def Let_def by (auto simp: abs_le_iff) 
qed

lemma roundTiesToEven_of_int: "roundTiesToEven (real_of_int m) = m"
  by (simp add: roundTiesToEven_def)

text \<open>The shape of a rounded number.\<close>

lemma binary64_shape:
  assumes "binary64 x = Some y" "x \<noteq> 0"
  shows "y = real_of_int (roundTiesToEven (x / 2 powr real_of_int (max \<lfloor>log 2 \<bar>x\<bar>\<rfloor> (- 1022) - 52)))
             * 2 powr real_of_int (max \<lfloor>log 2 \<bar>x\<bar>\<rfloor> (- 1022) - 52)"
  using assms unfolding binary64_def Let_def by (simp split: if_splits)

lemma binary64_abs_error:
  assumes "binary64 x = Some y" "x \<noteq> 0"
  shows "\<bar>y - x\<bar> \<le> 2 powr real_of_int (max \<lfloor>log 2 \<bar>x\<bar>\<rfloor> (- 1022) - 52) / 2"
proof -
  define e where "e = max \<lfloor>log 2 \<bar>x\<bar>\<rfloor> (- 1022) - 52"
  define p where "p = 2 powr real_of_int e"
  have p: "0 < p" by (simp add: p_def)
  have y: "y = real_of_int (roundTiesToEven (x / p)) * p"
    using binary64_shape[OF assms] by (simp add: e_def p_def)
  have "y - x = (real_of_int (roundTiesToEven (x / p)) - x / p) * p"
    using p by (simp add: y field_simps)
  then have "\<bar>y - x\<bar> = \<bar>real_of_int (roundTiesToEven (x / p)) - x / p\<bar> * p"
    using p by (simp add: abs_mult)
  also have "\<dots> \<le> (1 / 2) * p"
    using p roundTiesToEven_error[of "x / p"] by (intro mult_right_mono) simp_all
  finally show ?thesis by (simp add: p_def e_def)
qed

lemma binary64_normal_error:
  assumes "binary64 x = Some y" "2 powr (- 1022) \<le> \<bar>x\<bar>"
  shows "\<bar>y - x\<bar> \<le> 2 powr (- 53) * \<bar>x\<bar>"
proof -
  have "0 < (2::real) powr (- 1022)" by simp
  with assms(2) have pos: "0 < \<bar>x\<bar>" by linarith
  then have nz: "x \<noteq> 0" by simp
  define k where "k = \<lfloor>log 2 \<bar>x\<bar>\<rfloor>"
  have "real_of_int (- 1022) \<le> log 2 \<bar>x\<bar>"
    using assms(2) pos by (simp add: le_log_iff)
  then have k1: "- 1022 \<le> k" unfolding k_def by (simp only: le_floor_iff)
  have "real_of_int k \<le> log 2 \<bar>x\<bar>" unfolding k_def by simp
  then have k2: "2 powr real_of_int k \<le> \<bar>x\<bar>" using pos by (simp add: le_log_iff)
  have e: "max \<lfloor>log 2 \<bar>x\<bar>\<rfloor> (- 1022) - 52 = k - 52" using k1 by (simp add: k_def)
  have "\<bar>y - x\<bar> \<le> 2 powr real_of_int (k - 52) / 2"
    using binary64_abs_error[OF assms(1) nz] by (simp only: e)
  also have "2 powr real_of_int (k - 52) / 2 = 2 powr (- 53) * 2 powr real_of_int k"
  proof -
    have "real_of_int (k - 52) = (- 53) + real_of_int k + 1" by simp
    then have "(2::real) powr real_of_int (k - 52) = 2 powr (- 53) * 2 powr real_of_int k * 2 powr 1"
      by (simp only: powr_add)
    then show ?thesis by simp
  qed
  also have "\<dots> \<le> 2 powr (- 53) * \<bar>x\<bar>"
    using k2 by (intro mult_left_mono) simp_all
  finally show ?thesis .
qed

lemma binary64_subnormal_error:
  assumes "binary64 x = Some y" "\<bar>x\<bar> < 2 powr (- 1022)"
  shows "\<bar>y - x\<bar> \<le> 2 powr (- 1075)"
proof (cases "x = 0")
  case True
  with assms(1) show ?thesis by (simp add: binary64_def)
next
  case False
  then have pos: "0 < \<bar>x\<bar>" by simp
  have "log 2 \<bar>x\<bar> < real_of_int (- 1022)"
    using assms(2) pos by (simp add: log_less_iff)
  then have "\<lfloor>log 2 \<bar>x\<bar>\<rfloor> < - 1022" by (simp only: floor_less_iff)
  then have e: "max \<lfloor>log 2 \<bar>x\<bar>\<rfloor> (- 1022) - 52 = - 1074" by simp
  have "\<bar>y - x\<bar> \<le> 2 powr real_of_int (- 1074) / 2"
    using binary64_abs_error[OF assms(1) False] by (simp only: e)
  also have "2 powr real_of_int (- 1074) / 2 = (2::real) powr (- 1075)"
  proof -
    have "real_of_int (- 1074) = (- 1075) + (1::real)" by simp
    then have "(2::real) powr real_of_int (- 1074) = 2 powr (- 1075) * 2 powr 1"
      by (simp only: powr_add)
    then show ?thesis by simp
  qed
  finally show ?thesis .
qed

lemma onGrid_zero: "onGrid 0"
  unfolding onGrid_def by (rule exI[of _ 0]) simp

lemma onGrid_add: "onGrid a \<Longrightarrow> onGrid b \<Longrightarrow> onGrid (a + b)"
proof -
  assume "onGrid a" "onGrid b"
  then obtain m n :: int where "a = real_of_int m * 2 powr (- 1074)" "b = real_of_int n * 2 powr (- 1074)"
    unfolding onGrid_def by blast
  then have "a + b = real_of_int (m + n) * 2 powr (- 1074)" by (simp add: algebra_simps)
  then show ?thesis unfolding onGrid_def by blast
qed

lemma binary64_onGrid:
  assumes "binary64 x = Some y"
  shows "onGrid y"
proof (cases "x = 0")
  case True
  with assms have "y = 0" by (simp add: binary64_def)
  then show ?thesis by (simp add: onGrid_zero)
next
  case False
  define e where "e = max \<lfloor>log 2 \<bar>x\<bar>\<rfloor> (- 1022) - 52"
  define m where "m = roundTiesToEven (x / 2 powr real_of_int e)"
  have y: "y = real_of_int m * 2 powr real_of_int e"
    using binary64_shape[OF assms False] by (simp add: e_def m_def)
  have e: "- 1074 \<le> e" by (simp add: e_def)
  define n where "n = nat (e + 1074)"
  have "real_of_int e = real n + (- 1074)" using e by (simp add: n_def)
  then have "(2::real) powr real_of_int e = 2 powr real n * 2 powr (- 1074)"
    by (simp only: powr_add)
  also have "(2::real) powr real n = 2 ^ n" by (simp add: powr_realpow)
  finally have "y = real_of_int (m * 2 ^ n) * 2 powr (- 1074)" by (simp add: y)
  then show ?thesis unfolding onGrid_def by blast
qed

lemma onGrid_subnormal_exact:
  assumes "onGrid x" "\<bar>x\<bar> < 2 powr (- 1022)"
  shows "binary64 x = Some x"
proof (cases "x = 0")
  case True
  then show ?thesis by (simp add: binary64_def)
next
  case False
  then have pos: "0 < \<bar>x\<bar>" by simp
  from assms(1) obtain m :: int where x: "x = real_of_int m * 2 powr (- 1074)"
    unfolding onGrid_def by blast
  have "log 2 \<bar>x\<bar> < real_of_int (- 1022)"
    using assms(2) pos by (simp add: log_less_iff)
  then have "\<lfloor>log 2 \<bar>x\<bar>\<rfloor> < - 1022" by (simp only: floor_less_iff)
  then have e: "max \<lfloor>log 2 \<bar>x\<bar>\<rfloor> (- 1022) - 52 = - 1074" by simp
  have q: "x / 2 powr real_of_int (- 1074) = real_of_int m" by (simp add: x)
  have "(2::real) powr (- 1022) \<le> 2 powr 1024" by (intro powr_mono) simp_all
  also have "(2::real) powr 1024 = 2 ^ 1024" by (simp only: powr_numeral) 
  finally have big: "\<bar>x\<bar> < 2 ^ 1024" using assms(2) by linarith
  have "real_of_int (roundTiesToEven (x / 2 powr real_of_int (- 1074))) * 2 powr real_of_int (- 1074) = x"
    unfolding q roundTiesToEven_of_int by (simp add: x)
  then show ?thesis
    unfolding binary64_def Let_def e using False big by simp
qed

lemma number_add_error:
  assumes "onGrid a" "onGrid b" "number_add a b = Some s"
  shows "\<bar>s - (a + b)\<bar> \<le> 2 powr (- 53) * \<bar>a + b\<bar>" "onGrid s"
proof -
  from assms(3) have r: "binary64 (a + b) = Some s" by (simp add: number_add_def)
  then show "onGrid s" by (rule binary64_onGrid)
  show "\<bar>s - (a + b)\<bar> \<le> 2 powr (- 53) * \<bar>a + b\<bar>"
  proof (cases "\<bar>a + b\<bar> < 2 powr (- 1022)")
    case True
    have "binary64 (a + b) = Some (a + b)"
      using onGrid_add[OF assms(1,2)] True by (rule onGrid_subnormal_exact)
    with r have "s = a + b" by simp
    then show ?thesis by simp
  next
    case False
    then have "2 powr (- 1022) \<le> \<bar>a + b\<bar>" by simp
    with r show ?thesis by (rule binary64_normal_error)
  qed
qed

lemma number_div_error:
  assumes "number_div s n = Some a"
  shows "\<bar>a - s / n\<bar> \<le> 2 powr (- 53) * \<bar>s / n\<bar> + 2 powr (- 1075)"
proof -
  from assms have r: "binary64 (s / n) = Some a" by (simp add: number_div_def split: if_splits)
  show ?thesis
  proof (cases "\<bar>s / n\<bar> < 2 powr (- 1022)")
    case True
    with r have "\<bar>a - s / n\<bar> \<le> 2 powr (- 1075)" by (rule binary64_subnormal_error)
    moreover have "0 \<le> 2 powr (- 53) * \<bar>s / n\<bar>" by simp
    ultimately show ?thesis by linarith
  next
    case False
    then have "2 powr (- 1022) \<le> \<bar>s / n\<bar>" by simp
    with r have "\<bar>a - s / n\<bar> \<le> 2 powr (- 53) * \<bar>s / n\<bar>" by (rule binary64_normal_error)
    moreover have "0 \<le> (2::real) powr (- 1075)" by simp
    ultimately show ?thesis by linarith
  qed
qed

lemma reduce_add_error:
  assumes "onGrid a" "\<forall>x\<in>set xs. onGrid x" "reduce_add a xs = Some s"
  shows "\<bar>s - (a + sum_list xs)\<bar> \<le>
           ((1 + 2 powr (- 53)) ^ length xs - 1) * (\<bar>a\<bar> + sum_list (map abs xs))"
  using assms
proof (induction xs arbitrary: a)
  case Nil
  then show ?case by simp
next
  case (Cons b bs)
  define u :: real where "u = 2 powr (- 53)"
  define q where "q = (1 + u) ^ length bs"
  define A where "A = \<bar>a\<bar> + \<bar>b\<bar>"
  define T where "T = sum_list (map abs bs)"
  have u: "0 \<le> u" by (simp add: u_def)
  have q: "1 \<le> q" unfolding q_def using u by (intro one_le_power) simp
  have A: "0 \<le> A" by (simp add: A_def)
  have T: "0 \<le> T" unfolding T_def by (rule sum_list_nonneg) auto
  from Cons.prems(3) obtain s1 where s1: "number_add a b = Some s1" and rest: "reduce_add s1 bs = Some s"
    by (auto split: option.splits)
  from Cons.prems(2) have gb: "onGrid b" and gbs: "\<forall>x\<in>set bs. onGrid x" by simp_all
  have e1: "\<bar>s1 - (a + b)\<bar> \<le> u * \<bar>a + b\<bar>" and g1: "onGrid s1"
    using number_add_error[OF Cons.prems(1) gb s1] by (simp_all add: u_def)
  have "u * \<bar>a + b\<bar> \<le> u * A" unfolding A_def using u by (intro mult_left_mono) simp_all
  with e1 have e1': "\<bar>s1 - (a + b)\<bar> \<le> u * A" by linarith
  have "\<bar>s1\<bar> \<le> \<bar>a + b\<bar> + \<bar>s1 - (a + b)\<bar>" by linarith
  also have "\<dots> \<le> A + u * A" using e1' by (simp add: A_def)
  finally have s1A: "\<bar>s1\<bar> \<le> (1 + u) * A" by (simp add: algebra_simps)
  have ih: "\<bar>s - (s1 + sum_list bs)\<bar> \<le> (q - 1) * (\<bar>s1\<bar> + T)"
    using Cons.IH[OF g1 gbs rest] by (simp add: q_def u_def T_def)
  have "(q - 1) * (\<bar>s1\<bar> + T) \<le> (q - 1) * ((1 + u) * A + T)"
    using q s1A by (intro mult_left_mono) simp_all
  with ih have ih': "\<bar>s - (s1 + sum_list bs)\<bar> \<le> (q - 1) * ((1 + u) * A + T)" by linarith
  have "\<bar>s - (a + sum_list (b # bs))\<bar> \<le> \<bar>s - (s1 + sum_list bs)\<bar> + \<bar>s1 - (a + b)\<bar>"
    by simp
  also have "\<dots> \<le> (q - 1) * ((1 + u) * A + T) + u * A" using ih' e1' by linarith
  also have "\<dots> = (q * (1 + u) - 1) * A + (q - 1) * T" by (simp add: algebra_simps)
  also have "\<dots> \<le> (q * (1 + u) - 1) * A + (q * (1 + u) - 1) * T"
  proof -
    have "0 \<le> q * u" using q u by simp
    then have "q - 1 \<le> q * (1 + u) - 1" by (simp add: algebra_simps)
    then have "(q - 1) * T \<le> (q * (1 + u) - 1) * T" using T by (rule mult_right_mono)
    then show ?thesis by simp
  qed
  also have "\<dots> = ((1 + u) ^ length (b # bs) - 1) * (\<bar>a\<bar> + sum_list (map abs (b # bs)))"
    by (simp add: q_def A_def T_def algebra_simps)
  finally show ?case by (simp only: u_def)
qed


lemma avgSpeed_binary64_error:
  assumes "records \<noteq> []"
    and "\<forall>r\<in>set records. binary64 (speed r) = Some (speed r)"
    and "avgSpeed_binary64 records = Some a"
  shows "\<bar>a - sum_list (map speed records) / real (length records)\<bar> \<le> roundingTolerance records"
proof -
  define xs where "xs = map speed records"
  define n where "n = real (length records)"
  define u :: real where "u = 2 powr (- 53)"
  define q where "q = (1 + u) ^ length xs"
  define S where "S = sum_list xs"
  define T where "T = sum_list (map abs xs)"
  have n: "0 < n" using assms(1) by (simp add: n_def)
  have u: "0 \<le> u" by (simp add: u_def)
  have q: "1 \<le> q" unfolding q_def using u by (intro one_le_power) simp
  have T: "0 \<le> T" unfolding T_def by (rule sum_list_nonneg) auto
  have ST: "\<bar>S\<bar> \<le> T" unfolding S_def T_def by (rule sum_list_abs)
  have grid: "\<forall>x\<in>set xs. onGrid x"
    using assms(2) by (auto simp: xs_def intro: binary64_onGrid)
  from assms(3) obtain s where s: "reduce_add 0 xs = Some s" and d: "number_div s n = Some a"
    unfolding avgSpeed_binary64_def Let_def xs_def n_def by (auto split: option.splits)
  have es: "\<bar>s - S\<bar> \<le> (q - 1) * T"
    using reduce_add_error[OF onGrid_zero grid s] by (simp add: q_def u_def S_def T_def)
  have "\<bar>s\<bar> \<le> \<bar>S\<bar> + \<bar>s - S\<bar>" by linarith
  also have "\<dots> \<le> T + (q - 1) * T" using ST es by linarith
  finally have sT: "\<bar>s\<bar> \<le> q * T" by (simp add: algebra_simps)
  have ed: "\<bar>a - s / n\<bar> \<le> u * \<bar>s / n\<bar> + 2 powr (- 1075)"
    using number_div_error[OF d] by (simp add: u_def)
  have "u * \<bar>s / n\<bar> = u * \<bar>s\<bar> / n" using n by simp
  also have "\<dots> \<le> u * (q * T) / n"
    using sT u n by (intro divide_right_mono mult_left_mono) simp_all
  finally have ed': "\<bar>a - s / n\<bar> \<le> u * (q * T) / n + 2 powr (- 1075)" using ed by linarith
  have "\<bar>s / n - S / n\<bar> = \<bar>s - S\<bar> / n" using n by (simp add: diff_divide_distrib[symmetric])
  also have "\<dots> \<le> (q - 1) * T / n" using es n by (intro divide_right_mono) simp_all
  finally have es': "\<bar>s / n - S / n\<bar> \<le> (q - 1) * T / n" .
  have "\<bar>a - S / n\<bar> \<le> \<bar>a - s / n\<bar> + \<bar>s / n - S / n\<bar>" by linarith
  also have "\<dots> \<le> u * (q * T) / n + 2 powr (- 1075) + (q - 1) * T / n"
    using ed' es' by linarith
  also have "\<dots> = (q * (1 + u) - 1) * (T / n) + 2 powr (- 1075)"
    by (simp add: algebra_simps add_divide_distrib diff_divide_distrib)
  also have "\<dots> = roundingTolerance records"
    by (simp add: roundingTolerance_def q_def u_def T_def xs_def n_def comp_def algebra_simps)
  finally show ?thesis by (simp add: S_def xs_def n_def)
qed

lemma binary64_finite:
  assumes "\<bar>x\<bar> \<le> 2 ^ 1023"
  shows "\<exists>y. binary64 x = Some y"
proof (cases "x = 0")
  case True
  then show ?thesis by (simp add: binary64_def)
next
  case False
  then have pos: "0 < \<bar>x\<bar>" by simp
  define e where "e = max \<lfloor>log 2 \<bar>x\<bar>\<rfloor> (- 1022) - 52"
  define p where "p = 2 powr real_of_int e"
  define y where "y = real_of_int (roundTiesToEven (x / p)) * p"
  have p: "0 < p" by (simp add: p_def)
  have "y - x = (real_of_int (roundTiesToEven (x / p)) - x / p) * p"
    using p by (simp add: y_def field_simps)
  then have "\<bar>y - x\<bar> = \<bar>real_of_int (roundTiesToEven (x / p)) - x / p\<bar> * p"
    using p by (simp add: abs_mult)
  also have "\<dots> \<le> (1 / 2) * p"
    using p roundTiesToEven_error[of "x / p"] by (intro mult_right_mono) simp_all
  finally have err: "\<bar>y - x\<bar> \<le> p / 2" by simp
  have "\<bar>x\<bar> \<le> 2 powr real_of_int 1023"
    using assms by (simp add: powr_realpow)
  then have "log 2 \<bar>x\<bar> \<le> real_of_int 1023" using pos by (simp only: log_le_iff)
  then have "\<lfloor>log 2 \<bar>x\<bar>\<rfloor> \<le> 1023" by (simp add: floor_le_iff)
  then have "e \<le> 971" by (simp add: e_def)
  then have "p \<le> 2 powr real_of_int 971" unfolding p_def by (intro powr_mono) simp_all
  also have "\<dots> = 2 ^ 971" by (simp add: powr_realpow)
  finally have "p \<le> 2 ^ 971" .
  with err assms have "\<bar>y\<bar> \<le> 2 ^ 1023 + 2 ^ 971 / 2" by linarith
  also have "\<dots> < (2::real) ^ 1024" by simp
  finally have "\<bar>y\<bar> < 2 ^ 1024" .
  then have "binary64 x = Some y"
    unfolding binary64_def Let_def using False by (simp add: y_def p_def e_def)
  then show ?thesis ..
qed

lemma reduce_add_finite:
  assumes "onGrid a" "\<forall>x\<in>set xs. onGrid x"
    and "(\<bar>a\<bar> + sum_list (map abs xs)) * (1 + 2 powr (- 53)) ^ length xs \<le> 2 ^ 1023"
  shows "\<exists>s. reduce_add a xs = Some s"
  using assms
proof (induction xs arbitrary: a)
  case Nil
  then show ?case by simp
next
  case (Cons b bs)
  define u :: real where "u = 2 powr (- 53)"
  define q where "q = (1 + u) ^ length bs"
  define A where "A = \<bar>a\<bar> + \<bar>b\<bar>"
  define T where "T = sum_list (map abs bs)"
  have u: "0 \<le> u" by (simp add: u_def)
  have q: "1 \<le> q" unfolding q_def using u by (intro one_le_power) simp
  have A: "0 \<le> A" by (simp add: A_def)
  have T: "0 \<le> T" unfolding T_def by (rule sum_list_nonneg) auto
  from Cons.prems(2) have gb: "onGrid b" and gbs: "\<forall>x\<in>set bs. onGrid x" by simp_all
  have bound: "(A + T) * ((1 + u) * q) \<le> 2 ^ 1023"
    using Cons.prems(3) by (simp add: A_def T_def q_def u_def algebra_simps)
  have "1 * 1 \<le> (1 + u) * q" using u q by (intro mult_mono) simp_all
  then have uq: "1 \<le> (1 + u) * q" by simp
  have "A \<le> (A + T) * 1" using T by simp
  also have "\<dots> \<le> (A + T) * ((1 + u) * q)" using uq A T by (intro mult_left_mono) simp_all
  finally have "A \<le> 2 ^ 1023" using bound by linarith
  moreover have "\<bar>a + b\<bar> \<le> A" by (simp add: A_def)
  ultimately have "\<bar>a + b\<bar> \<le> 2 ^ 1023" by linarith
  then obtain s1 where s1: "number_add a b = Some s1"
    unfolding number_add_def using binary64_finite by blast
  have e1: "\<bar>s1 - (a + b)\<bar> \<le> u * \<bar>a + b\<bar>" and g1: "onGrid s1"
    using number_add_error[OF Cons.prems(1) gb s1] by (simp_all add: u_def)
  have "u * \<bar>a + b\<bar> \<le> u * A" unfolding A_def using u by (intro mult_left_mono) simp_all
  with e1 have e1': "\<bar>s1 - (a + b)\<bar> \<le> u * A" by linarith
  have "\<bar>s1\<bar> \<le> \<bar>a + b\<bar> + \<bar>s1 - (a + b)\<bar>" by linarith
  also have "\<dots> \<le> A + u * A" using e1' by (simp add: A_def)
  finally have s1A: "\<bar>s1\<bar> \<le> (1 + u) * A" by (simp add: algebra_simps)
  have "0 \<le> u * T" using u T by simp
  then have "\<bar>s1\<bar> + T \<le> (A + T) * (1 + u)" using s1A by (simp add: algebra_simps)
  then have "(\<bar>s1\<bar> + T) * q \<le> (A + T) * (1 + u) * q"
    using q by (intro mult_right_mono) simp_all
  with bound have "(\<bar>s1\<bar> + sum_list (map abs bs)) * (1 + 2 powr (- 53)) ^ length bs \<le> 2 ^ 1023"
    by (simp add: T_def q_def u_def algebra_simps)
  from Cons.IH[OF g1 gbs this] obtain s where "reduce_add s1 bs = Some s" ..
  with s1 show ?case by simp
qed

lemma avgSpeed_binary64_finite:
  assumes "records \<noteq> []"
    and "\<forall>r\<in>set records. binary64 (speed r) = Some (speed r)"
    and "sum_list (map (\<lambda>r. \<bar>speed r\<bar>) records) * (1 + 2 powr (- 53)) ^ length records \<le> 2 ^ 1023"
  shows "\<exists>a. avgSpeed_binary64 records = Some a"
proof -
  define xs where "xs = map speed records"
  define n where "n = real (length records)"
  define u :: real where "u = 2 powr (- 53)"
  define q where "q = (1 + u) ^ length xs"
  define S where "S = sum_list xs"
  define T where "T = sum_list (map abs xs)"
  have n: "1 \<le> n" using assms(1) by (cases records) (simp_all add: n_def)
  have T: "0 \<le> T" unfolding T_def by (rule sum_list_nonneg) auto
  have ST: "\<bar>S\<bar> \<le> T" unfolding S_def T_def by (rule sum_list_abs)
  have grid: "\<forall>x\<in>set xs. onGrid x"
    using assms(2) by (auto simp: xs_def intro: binary64_onGrid)
  have Tq: "T * q \<le> 2 ^ 1023"
    using assms(3) by (simp add: T_def q_def u_def xs_def comp_def)
  then have "(\<bar>0\<bar> + sum_list (map abs xs)) * (1 + 2 powr (- 53)) ^ length xs \<le> 2 ^ 1023"
    by (simp add: T_def q_def u_def)
  from reduce_add_finite[OF onGrid_zero grid this]
  obtain s where s: "reduce_add 0 xs = Some s" ..
  have es: "\<bar>s - S\<bar> \<le> (q - 1) * T"
    using reduce_add_error[OF onGrid_zero grid s] by (simp add: q_def u_def S_def T_def)
  have "\<bar>s\<bar> \<le> \<bar>S\<bar> + \<bar>s - S\<bar>" by linarith
  also have "\<dots> \<le> T + (q - 1) * T" using ST es by linarith
  finally have sT: "\<bar>s\<bar> \<le> T * q" by (simp add: algebra_simps)
  have "\<bar>s / n\<bar> = \<bar>s\<bar> / n" using n by simp
  also have "\<dots> \<le> \<bar>s\<bar> / 1" using n by (intro divide_left_mono) simp_all
  finally have "\<bar>s / n\<bar> \<le> 2 ^ 1023" using sT Tq by simp
  then obtain a where "binary64 (s / n) = Some a" using binary64_finite by blast
  then have "number_div s n = Some a" using n by (simp add: number_div_def)
  with s have "avgSpeed_binary64 records = Some a"
    unfolding avgSpeed_binary64_def Let_def xs_def[symmetric] n_def
    by (simp add: xs_def)
  then show ?thesis ..
qed




lemma avg_30_20_10:
  "map speed records = [30, 20, 10] \<Longrightarrow> avgSpeed_binary64 records = Some 20"
  unfolding avgSpeed_binary64_def Let_def
  by (simp add: number_add_def number_div_def i30 i50 i60 i20)

section \<open>Properties\<close>

text \<open>
  C2. On the empty array \<open>calculateStats\<close> raises nothing and sets the statistics to
  zero records, average speed 0, maximum speed 0 and total distance 0, whatever the
  statistics were before.
\<close>

theorem calculateStats_empty:
  "calculateStats [] st =
     Inr \<lparr>totalRecords = 0, avgSpeed = 0, maxSpeed = 0, totalDistance = 0\<rparr>"
  by (simp add: calculateStats_def setStats_def)




text \<open>
  C3, as stated, fails on the numbers the code computes: the binary64 average of three
  samples of speed 0.2 (the binary64 number nearest to it) is \<open>0.20000000000000004\<close>,
  one unit in the last place above their arithmetic mean, which is 0.2 itself.
\<close>

theorem avg_differs_from_mean_binary64:
  "binary64 (2 / 10) = Some (3602879701896397 / 2 ^ 54) \<and>
   avgSpeed_binary64
     [mkRecord ''a'' 0 0 (3602879701896397 / 2 ^ 54) ''2024-05-01T10:02:00+00:00'',
      mkRecord ''b'' 0 0 (3602879701896397 / 2 ^ 54) ''2024-05-01T10:01:00+00:00'',
      mkRecord ''c'' 0 0 (3602879701896397 / 2 ^ 54) ''2024-05-01T10:00:00+00:00'']
     = Some (7205759403792795 / 2 ^ 55) \<and>
   sum_list (map speed
     [mkRecord ''a'' 0 0 (3602879701896397 / 2 ^ 54) ''2024-05-01T10:02:00+00:00'',
      mkRecord ''b'' 0 0 (3602879701896397 / 2 ^ 54) ''2024-05-01T10:01:00+00:00'',
      mkRecord ''c'' 0 0 (3602879701896397 / 2 ^ 54) ''2024-05-01T10:00:00+00:00'']) / 3
     = 3602879701896397 / 2 ^ 54 \<and>
   (7205759403792795 / 2 ^ 55 :: real) \<noteq> 3602879701896397 / 2 ^ 54"
proof (intro conjI)
  show "binary64 (2 / 10) = Some (3602879701896397 / 2 ^ 54)" by (rule d02)
  show "avgSpeed_binary64
     [mkRecord ''a'' 0 0 (3602879701896397 / 2 ^ 54) ''2024-05-01T10:02:00+00:00'',
      mkRecord ''b'' 0 0 (3602879701896397 / 2 ^ 54) ''2024-05-01T10:01:00+00:00'',
      mkRecord ''c'' 0 0 (3602879701896397 / 2 ^ 54) ''2024-05-01T10:00:00+00:00'']
     = Some (7205759403792795 / 2 ^ 55)"
    unfolding avgSpeed_binary64_def Let_def
    by (simp add: number_add_def number_div_def d02_fix[simplified] d02_twice[simplified]
        d04_plus_d02[simplified] d06x_div3[simplified])
  show "sum_list (map speed
     [mkRecord ''a'' 0 0 (3602879701896397 / 2 ^ 54) ''2024-05-01T10:02:00+00:00'',
      mkRecord ''b'' 0 0 (3602879701896397 / 2 ^ 54) ''2024-05-01T10:01:00+00:00'',
      mkRecord ''c'' 0 0 (3602879701896397 / 2 ^ 54) ''2024-05-01T10:00:00+00:00'']) / 3
     = 3602879701896397 / 2 ^ 54" by simp
  show "(7205759403792795 / 2 ^ 55 :: real) \<noteq> 3602879701896397 / 2 ^ 54" by simp
qed

text \<open>
  C3, amended. On a non-empty array of finite speeds the maximum speed is the maximum of
  the speeds, and the average speed, as computed in binary64, is finite whenever the sum
  of the absolute speeds times \<open>(1 + 2\<^sup>-\<^sup>5\<^sup>3)\<^sup>n\<close> is at most \<open>2\<^sup>1\<^sup>0\<^sup>2\<^sup>3\<close>, and whenever
  it is finite it lies within \<open>roundingTolerance\<close> of the arithmetic mean of the speeds;
  for the speeds 10, 20, 30 the average is 20 and the maximum is 30.
\<close>

theorem avgSpeed_near_mean:
  assumes "records \<noteq> []"
    and "\<forall>r\<in>set records. binary64 (speed r) = Some (speed r)"
  shows "(sum_list (map (\<lambda>r. \<bar>speed r\<bar>) records) * (1 + 2 powr (- 53)) ^ length records \<le> 2 ^ 1023
            \<longrightarrow> (\<exists>a. avgSpeed_binary64 records = Some a)) \<and>
         (\<forall>a. avgSpeed_binary64 records = Some a \<longrightarrow>
            \<bar>a - sum_list (map speed records) / real (length records)\<bar> \<le> roundingTolerance records) \<and>
         (\<exists>s. calculateStats records st = Inr s \<and> maxSpeed s = Max (set (map speed records))) \<and>
         (map speed records = [10, 20, 30] \<longrightarrow>
            avgSpeed_binary64 records = Some 20 \<and>
            (\<exists>s. calculateStats records st = Inr s \<and> maxSpeed s = 30))"
proof (intro conjI impI allI)
  assume "sum_list (map (\<lambda>r. \<bar>speed r\<bar>) records) * (1 + 2 powr (- 53)) ^ length records \<le> 2 ^ 1023"
  with assms show "\<exists>a. avgSpeed_binary64 records = Some a" by (rule avgSpeed_binary64_finite)
next
  fix a
  assume "avgSpeed_binary64 records = Some a"
  with assms
  show "\<bar>a - sum_list (map speed records) / real (length records)\<bar> \<le> roundingTolerance records"
    by (rule avgSpeed_binary64_error)
next
  show "\<exists>s. calculateStats records st = Inr s \<and> maxSpeed s = Max (set (map speed records))"
    using assms(1) by (simp add: calculateStats_nonempty)
next
  assume m: "map speed records = [10, 20, 30]"
  then show "avgSpeed_binary64 records = Some 20" by (rule avg_10_20_30)
  have "Max (set (map speed records)) = 30" unfolding m by simp
  then show "\<exists>s. calculateStats records st = Inr s \<and> maxSpeed s = 30"
    using assms(1) by (simp add: calculateStats_nonempty)
qed

theorem avgSpeed_near_mean_witness:
  "[mkRecord ''c'' 0 2 10 ''2024-05-01T10:02:00+00:00'',
    mkRecord ''b'' 0 1 20 ''2024-05-01T10:01:00+00:00'',
    mkRecord ''a'' 0 0 30 ''2024-05-01T10:00:00+00:00''] \<noteq> [] \<and>
   binary64 10 = Some 10 \<and> binary64 20 = Some 20 \<and> binary64 30 = Some 30 \<and>
   sum_list (map (\<lambda>r. \<bar>speed r\<bar>)
     [mkRecord ''c'' 0 2 10 ''2024-05-01T10:02:00+00:00'',
      mkRecord ''b'' 0 1 20 ''2024-05-01T10:01:00+00:00'',
      mkRecord ''a'' 0 0 30 ''2024-05-01T10:00:00+00:00'']) * (1 + 2 powr (- 53)) ^ 3 \<le> 2 ^ 1023 \<and>
   avgSpeed_binary64
     [mkRecord ''c'' 0 2 10 ''2024-05-01T10:02:00+00:00'',
      mkRecord ''b'' 0 1 20 ''2024-05-01T10:01:00+00:00'',
      mkRecord ''a'' 0 0 30 ''2024-05-01T10:00:00+00:00''] = Some 20 \<and>
   \<bar>20 - sum_list (map speed
     [mkRecord ''c'' 0 2 10 ''2024-05-01T10:02:00+00:00'',
      mkRecord ''b'' 0 1 20 ''2024-05-01T10:01:00+00:00'',
      mkRecord ''a'' 0 0 30 ''2024-05-01T10:00:00+00:00'']) / 3\<bar> \<le> roundingTolerance
     [mkRecord ''c'' 0 2 10 ''2024-05-01T10:02:00+00:00'',
      mkRecord ''b'' 0 1 20 ''2024-05-01T10:01:00+00:00'',
      mkRecord ''a'' 0 0 30 ''2024-05-01T10:00:00+00:00''] \<and>
   (\<exists>s. calculateStats
     [mkRecord ''c'' 0 2 10 ''2024-05-01T10:02:00+00:00'',
      mkRecord ''b'' 0 1 20 ''2024-05-01T10:01:00+00:00'',
      mkRecord ''a'' 0 0 30 ''2024-05-01T10:00:00+00:00''] zeroStats = Inr s \<and> maxSpeed s = 30)"
proof -
  define rs where "rs =
    [mkRecord ''c'' 0 2 10 ''2024-05-01T10:02:00+00:00'',
     mkRecord ''b'' 0 1 20 ''2024-05-01T10:01:00+00:00'',
     mkRecord ''a'' 0 0 30 ''2024-05-01T10:00:00+00:00'']"
  have ne: "rs \<noteq> []" by (simp add: rs_def)
  have b: "binary64 10 = Some 10" "binary64 20 = Some 20" "binary64 30 = Some 30"
    by (rule i10, rule i20, rule i30)
  then have fin: "\<forall>r\<in>set rs. binary64 (speed r) = Some (speed r)" by (simp add: rs_def)
  have m: "map speed rs = [10, 20, 30]" by (simp add: rs_def)
  have "(1 + 2 powr (- 53) :: real) ^ 3 \<le> 2 ^ 3"
    by (intro power_mono) (simp_all add: powr_neg_numeral)
  then have "60 * (1 + 2 powr (- 53) :: real) ^ 3 \<le> 60 * 2 ^ 3" by simp
  also have "\<dots> \<le> (2::real) ^ 1023" by simp
  finally have mag: "sum_list (map (\<lambda>r. \<bar>speed r\<bar>) rs) * (1 + 2 powr (- 53)) ^ 3 \<le> 2 ^ 1023"
    by (simp add: rs_def)
  note t = avgSpeed_near_mean[OF ne fin, of zeroStats]
  from t m have a: "avgSpeed_binary64 rs = Some 20" by blast
  with t have e: "\<bar>20 - sum_list (map speed rs) / real (length rs)\<bar> \<le> roundingTolerance rs"
    by blast
  then have e': "\<bar>20 - sum_list (map speed rs) / 3\<bar> \<le> roundingTolerance rs"
    by (simp add: rs_def)
  from t m have x: "\<exists>s. calculateStats rs zeroStats = Inr s \<and> maxSpeed s = 30" by blast
  from ne b mag a e' x show ?thesis unfolding rs_def by (intro conjI)
qed

text \<open>
  C4, as stated, fails on the numbers the code computes: the binary64 average of three
  samples of speed 0.1 (the binary64 number nearest to it) is one unit in the last place
  above 0.1, which is the maximum speed. The sum \<open>0.1 + 0.1 + 0.1\<close> rounds up to
  \<open>0.30000000000000004\<close>, and a third of that rounds to \<open>0.10000000000000002\<close>.
\<close>

theorem avg_exceeds_max_binary64:
  "binary64 (1 / 10) = Some (3602879701896397 / 2 ^ 55) \<and>
   avgSpeed_binary64
     [mkRecord ''a'' 0 0 (3602879701896397 / 2 ^ 55) ''2024-05-01T10:02:00+00:00'',
      mkRecord ''b'' 0 0 (3602879701896397 / 2 ^ 55) ''2024-05-01T10:01:00+00:00'',
      mkRecord ''c'' 0 0 (3602879701896397 / 2 ^ 55) ''2024-05-01T10:00:00+00:00'']
     = Some (7205759403792795 / 2 ^ 56) \<and>
   (\<exists>s. calculateStats
     [mkRecord ''a'' 0 0 (3602879701896397 / 2 ^ 55) ''2024-05-01T10:02:00+00:00'',
      mkRecord ''b'' 0 0 (3602879701896397 / 2 ^ 55) ''2024-05-01T10:01:00+00:00'',
      mkRecord ''c'' 0 0 (3602879701896397 / 2 ^ 55) ''2024-05-01T10:00:00+00:00''] zeroStats = Inr s \<and>
     maxSpeed s = 3602879701896397 / 2 ^ 55 \<and>
     maxSpeed s < 7205759403792795 / 2 ^ 56)"
proof (intro conjI)
  show "binary64 (1 / 10) = Some (3602879701896397 / 2 ^ 55)" by (rule d01)
  show "avgSpeed_binary64
     [mkRecord ''a'' 0 0 (3602879701896397 / 2 ^ 55) ''2024-05-01T10:02:00+00:00'',
      mkRecord ''b'' 0 0 (3602879701896397 / 2 ^ 55) ''2024-05-01T10:01:00+00:00'',
      mkRecord ''c'' 0 0 (3602879701896397 / 2 ^ 55) ''2024-05-01T10:00:00+00:00'']
     = Some (7205759403792795 / 2 ^ 56)"
    unfolding avgSpeed_binary64_def Let_def
    by (simp add: number_add_def number_div_def d01_fix[simplified] d01_twice[simplified]
        d02_plus_d01[simplified] d03x_div3[simplified])
  show "\<exists>s. calculateStats
     [mkRecord ''a'' 0 0 (3602879701896397 / 2 ^ 55) ''2024-05-01T10:02:00+00:00'',
      mkRecord ''b'' 0 0 (3602879701896397 / 2 ^ 55) ''2024-05-01T10:01:00+00:00'',
      mkRecord ''c'' 0 0 (3602879701896397 / 2 ^ 55) ''2024-05-01T10:00:00+00:00''] zeroStats = Inr s \<and>
     maxSpeed s = 3602879701896397 / 2 ^ 55 \<and>
     maxSpeed s < 7205759403792795 / 2 ^ 56"
    unfolding calculateStats_total by simp
qed

text \<open>
  C4, amended. On a non-empty array of finite speeds (record count at least 1) whose
  average speed, as computed in binary64, is finite, the average speed is at most the
  maximum speed plus \<open>roundingTolerance\<close>.
\<close>

theorem avgSpeed_le_maxSpeed_rounded:
  assumes "records \<noteq> []"
    and "\<forall>r\<in>set records. binary64 (speed r) = Some (speed r)"
    and "avgSpeed_binary64 records = Some a"
  shows "\<exists>s. calculateStats records st = Inr s \<and> 1 \<le> totalRecords s \<and>
             a \<le> maxSpeed s + roundingTolerance records"
proof -
  have e: "\<bar>a - sum_list (map speed records) / real (length records)\<bar> \<le> roundingTolerance records"
    using assms by (rule avgSpeed_binary64_error)
  have m: "sum_list (map speed records) / real (length records) \<le> Max (set (map speed records))"
    using mean_le_Max[of "map speed records"] assms(1) by simp
  from e m have "a \<le> Max (set (map speed records)) + roundingTolerance records" by linarith
  then show ?thesis using assms(1) by (simp add: calculateStats_nonempty Suc_le_eq)
qed

theorem avgSpeed_le_maxSpeed_rounded_witness:
  "binary64 20 = Some 20 \<and> binary64 30 = Some 30 \<and> binary64 10 = Some 10 \<and>
   avgSpeed_binary64
     [mkRecord ''c'' 0 2 30 ''2024-05-01T10:02:00+00:00'',
      mkRecord ''b'' 0 1 20 ''2024-05-01T10:01:00+00:00'',
      mkRecord ''a'' 0 0 10 ''2024-05-01T10:00:00+00:00''] = Some 20 \<and>
   (\<exists>s. calculateStats
     [mkRecord ''c'' 0 2 30 ''2024-05-01T10:02:00+00:00'',
      mkRecord ''b'' 0 1 20 ''2024-05-01T10:01:00+00:00'',
      mkRecord ''a'' 0 0 10 ''2024-05-01T10:00:00+00:00''] zeroStats = Inr s \<and>
     1 \<le> totalRecords s \<and>
     20 \<le> maxSpeed s + roundingTolerance
       [mkRecord ''c'' 0 2 30 ''2024-05-01T10:02:00+00:00'',
        mkRecord ''b'' 0 1 20 ''2024-05-01T10:01:00+00:00'',
        mkRecord ''a'' 0 0 10 ''2024-05-01T10:00:00+00:00''])"
  using avgSpeed_le_maxSpeed_rounded
    [of "[mkRecord ''c'' 0 2 30 ''2024-05-01T10:02:00+00:00'',
          mkRecord ''b'' 0 1 20 ''2024-05-01T10:01:00+00:00'',
          mkRecord ''a'' 0 0 10 ''2024-05-01T10:00:00+00:00'']" 20 zeroStats]
  by (simp add: i10 i20 i30 avg_30_20_10)



text \<open>
  C8. For two samples at \<open>(0, 0)\<close> and \<open>(0, 1)\<close> the total distance is within 0.1 km
  of 111.19 km.
\<close>

theorem equator_one_degree:
  "\<exists>s. calculateStats
        [\<lparr>rec_id = i1, latitude = 0, longitude = 0, speed = v1, timestamp = t1, heading = h1\<rparr>,
         \<lparr>rec_id = i2, latitude = 0, longitude = 1, speed = v2, timestamp = t2, heading = h2\<rparr>]
        st = Inr s \<and>
       \<bar>totalDistance s - 111.19\<bar> \<le> 0.1"
proof -
  define r1 where
    "r1 = \<lparr>rec_id = i1, latitude = 0, longitude = 0, speed = v1, timestamp = t1, heading = h1\<rparr>"
  define r2 where
    "r2 = \<lparr>rec_id = i2, latitude = 0, longitude = 1, speed = v2, timestamp = t2, heading = h2\<rparr>"
  have "segmentDistance r2 r1 = 6371 * (\<bar>longitude r1 - longitude r2\<bar> * pi / 180)"
    by (rule segmentDistance_equator) (simp_all add: r1_def r2_def)
  then have d: "pathLength [r1, r2] = 6371 * (1 * pi / 180)"
    by (simp add: pathLength_simps r1_def r2_def)
  have b: "\<bar>6371 * (1 * pi / 180) - 111.19\<bar> \<le> 0.1"
  proof (rule abs_leI)
    show "6371 * (1 * pi / 180) - 111.19 \<le> 0.1" using pi_upper by simp
    show "- (6371 * (1 * pi / 180) - 111.19) \<le> 0.1" using pi_lower by simp
  qed
  show ?thesis
    unfolding r1_def[symmetric] r2_def[symmetric] calculateStats_total d
    using b by simp
qed

text \<open>
  C9. The statistics after the call depend on the array only: whatever the \<open>stats\<close>
  state was before, the call raises nothing and yields the same state, and calling
  again on the state just produced yields it again.
\<close>

theorem calculateStats_stateless:
  "\<exists>s. calculateStats records st = Inr s \<and> calculateStats records st' = Inr s \<and>
       calculateStats records s = Inr s"
  unfolding calculateStats_total by simp




end
